theory Spec2Isabelle
  imports Complex_Main
begin

section \<open>The platformer core of PCG4YA.py\<close>

text \<open>
  A shallow embedding of the simulation core of \<^verbatim>\<open>src/PCG4YA.py\<close>: the classes
  \<^verbatim>\<open>Platform\<close>, \<^verbatim>\<open>Player\<close>, \<^verbatim>\<open>PlatformGenerator\<close>, \<^verbatim>\<open>Camera\<close> and the state-changing
  methods of \<^verbatim>\<open>Game\<close>. Drawing, event polling and the pygame window are left out.

  Conventions of the model.
  \<^item> Python \<^verbatim>\<open>int\<close> is \<open>int\<close>. Python \<^verbatim>\<open>float\<close> is \<open>real\<close>: arithmetic is exact, rounding
    of IEEE doubles is not modelled. No statement below depends on a rounding error,
    and every concrete input used below keeps a margin far above double precision.
  \<^item> Every method that mutates \<^verbatim>\<open>self\<close> takes the object and returns the updated one.
  \<^item> The process-wide stream of the \<^verbatim>\<open>random\<close> module is an explicit state that is
    threaded through every function that draws from it.
  \<^item> An exception is a value \<open>Inl e\<close> of a sum type.
\<close>

subsection \<open>Module constants\<close>

text \<open>
  The constants assigned at module level (lines 15--17 and 30--35). They are gathered in a
  record, read by every function that mentions one of them, so that statements can
  range over their values; \<open>default_config\<close> holds the values of the source.
\<close>

record config =
  SCREEN_WIDTH :: int
  SCREEN_HEIGHT :: int
  GRAVITY :: real
  PLAYER_SPEED :: int
  JUMP_STRENGTH :: int
  DASH_SPEED :: int
  DASH_DURATION :: int
  COYOTE_TIME :: int

definition default_config :: config where
  "default_config =
     \<lparr> SCREEN_WIDTH = 1000, SCREEN_HEIGHT = 600, GRAVITY = 7 / 10, PLAYER_SPEED = 6,
       JUMP_STRENGTH = - 15, DASH_SPEED = 20, DASH_DURATION = 10, COYOTE_TIME = 6 \<rparr>"

text \<open>Python's \<^verbatim>\<open>int(x)\<close> on a float truncates towards zero.\<close>

definition py_int :: "real \<Rightarrow> int" where
  "py_int v = (if 0 \<le> v then \<lfloor>v\<rfloor> else \<lceil>v\<rceil>)"

datatype py_error = ValueError | ConfigurationError

subsection \<open>Platform\<close>

datatype PlatformType = NORMAL | CRUMBLING | BOUNCY | MOVING

text \<open>
  The four \<^verbatim>\<open>move_*\<close>/\<^verbatim>\<open>original_y\<close> attributes exist only on a platform created with type
  \<open>MOVING\<close>. In the record they are always present; \<open>Platform\<close> gives them the value 0 on
  the other types, and no function below reads them unless \<open>platform_type = MOVING\<close>,
  exactly as in the source. The type of a platform is never assigned after creation.
\<close>

record platform =
  pf_x :: int
  pf_y :: int
  pf_width :: int
  pf_height :: int
  platform_type :: PlatformType
  crumble_timer :: int
  active :: bool
  original_y :: int
  move_range :: int
  move_speed :: int
  move_direction :: int

definition Platform :: "int \<Rightarrow> int \<Rightarrow> int \<Rightarrow> PlatformType \<Rightarrow> platform" where
  "Platform x y w t =
     (if t = MOVING
      then \<lparr> pf_x = x, pf_y = y, pf_width = w, pf_height = 20, platform_type = t,
             crumble_timer = 0, active = True,
             original_y = y, move_range = 100, move_speed = 2, move_direction = 1 \<rparr>
      else \<lparr> pf_x = x, pf_y = y, pf_width = w, pf_height = 20, platform_type = t,
             crumble_timer = 0, active = True,
             original_y = 0, move_range = 0, move_speed = 0, move_direction = 0 \<rparr>)"

definition Platform_update :: "platform \<Rightarrow> platform" where
  "Platform_update p =
     (let p1 = (if platform_type p = CRUMBLING \<and> crumble_timer p > 0
                then (let q = p\<lparr>crumble_timer := crumble_timer p - 1\<rparr>
                      in if crumble_timer q \<le> 0 then q\<lparr>active := False\<rparr> else q)
                else p)
      in if platform_type p1 = MOVING
         then (let q = p1\<lparr>pf_y := pf_y p1 + move_speed p1 * move_direction p1\<rparr>
               in if \<bar>pf_y q - original_y q\<bar> > move_range q
                  then q\<lparr>move_direction := move_direction q * (- 1)\<rparr> else q)
         else p1)"

definition start_crumble :: "platform \<Rightarrow> platform" where
  "start_crumble p = (if crumble_timer p = 0 then p\<lparr>crumble_timer := 30\<rparr> else p)"

subsection \<open>Player\<close>

text \<open>The per-frame snapshot of held keys, restricted to the six keys the core reads.\<close>

record keys =
  K_LEFT :: bool
  K_RIGHT :: bool
  K_UP :: bool
  K_DOWN :: bool
  K_z :: bool
  K_x :: bool

record player =
  p_x :: real
  p_y :: real
  p_width :: int
  p_height :: int
  vel_x :: real
  vel_y :: real
  on_ground :: bool
  dash_timer :: int
  dash_cooldown :: int
  dashing :: bool
  coyote_timer :: int

definition Player :: "real \<Rightarrow> real \<Rightarrow> player" where
  "Player x y =
     \<lparr> p_x = x, p_y = y, p_width = 30, p_height = 40, vel_x = 0, vel_y = 0,
       on_ground = False, dash_timer = 0, dash_cooldown = 0, dashing = False,
       coyote_timer = 0 \<rparr>"

definition check_collision :: "player \<Rightarrow> platform \<Rightarrow> bool" where
  "check_collision p pf \<longleftrightarrow>
     p_x p < of_int (pf_x pf + pf_width pf) \<and>
     p_x p + of_int (p_width p) > of_int (pf_x pf) \<and>
     p_y p < of_int (pf_y pf + pf_height pf) \<and>
     p_y p + of_int (p_height p) > of_int (pf_y pf)"

text \<open>
  \<^verbatim>\<open>handle_collision\<close> mutates the player and, through \<^verbatim>\<open>start_crumble\<close>, the platform
  object it was given; the model returns both.
\<close>

definition handle_collision :: "config \<Rightarrow> player \<Rightarrow> platform \<Rightarrow> player \<times> platform" where
  "handle_collision cfg p pf =
     (if vel_y p > 0 \<and> p_y p + of_int (p_height p) - vel_y p \<le> of_int (pf_y pf) + 5
      then (let p1 = p\<lparr>p_y := of_int (pf_y pf) - of_int (p_height p),
                        vel_y := 0, on_ground := True\<rparr>
            in if platform_type pf = BOUNCY
               then (p1\<lparr>vel_y := of_int (JUMP_STRENGTH cfg) * (3 / 2), on_ground := False\<rparr>, pf)
               else if platform_type pf = CRUMBLING
               then (p1, start_crumble pf)
               else (p1, pf))
      else (p, pf))"

text \<open>The blocks of \<^verbatim>\<open>Player.update\<close>, in source order, one definition per commented block.\<close>

definition horizontal_movement :: "config \<Rightarrow> keys \<Rightarrow> player \<Rightarrow> player" where
  "horizontal_movement cfg ks p =
     (if \<not> dashing p
      then (if K_LEFT ks then p\<lparr>vel_x := - of_int (PLAYER_SPEED cfg)\<rparr>
            else if K_RIGHT ks then p\<lparr>vel_x := of_int (PLAYER_SPEED cfg)\<rparr>
            else p\<lparr>vel_x := 0\<rparr>)
      else p)"

definition update_coyote_time :: "config \<Rightarrow> player \<Rightarrow> player" where
  "update_coyote_time cfg p =
     (if on_ground p then p\<lparr>coyote_timer := COYOTE_TIME cfg\<rparr>
      else if coyote_timer p > 0 then p\<lparr>coyote_timer := coyote_timer p - 1\<rparr>
      else p)"

definition jumping :: "config \<Rightarrow> keys \<Rightarrow> player \<Rightarrow> player" where
  "jumping cfg ks p =
     (if K_z ks \<and> coyote_timer p > 0 \<and> vel_y p \<ge> 0
      then p\<lparr>vel_y := of_int (JUMP_STRENGTH cfg), coyote_timer := 0, on_ground := False\<rparr>
      else p)"

definition dash_mechanic :: "config \<Rightarrow> keys \<Rightarrow> player \<Rightarrow> player" where
  "dash_mechanic cfg ks p =
     (if K_x ks \<and> dash_cooldown p \<le> 0 \<and> \<not> dashing p
      then (let p1 = p\<lparr>dashing := True, dash_timer := DASH_DURATION cfg, dash_cooldown := 60\<rparr>;
                dash_x0 = (if K_LEFT ks then - 1 else if K_RIGHT ks then 1 else (0::int));
                dash_y = (if K_UP ks then - 1 else if K_DOWN ks then 1 else (0::int));
                dash_x = (if dash_x0 = 0 \<and> dash_y = 0 then 1 else dash_x0);
                magnitude = sqrt (of_int (dash_x ^ 2 + dash_y ^ 2))
            in if magnitude > 0
               then p1\<lparr>vel_x := (of_int dash_x / magnitude) * of_int (DASH_SPEED cfg),
                       vel_y := (of_int dash_y / magnitude) * of_int (DASH_SPEED cfg)\<rparr>
               else p1)
      else p)"

definition handle_dash :: "config \<Rightarrow> player \<Rightarrow> player" where
  "handle_dash cfg p =
     (if dashing p
      then (let q = p\<lparr>dash_timer := dash_timer p - 1\<rparr>
            in if dash_timer q \<le> 0
               then q\<lparr>dashing := False,
                      vel_x := (if vel_x q > 0 then of_int (PLAYER_SPEED cfg)
                                else - of_int (PLAYER_SPEED cfg))\<rparr>
               else q)
      else p)"

definition cooldown_tick :: "player \<Rightarrow> player" where
  "cooldown_tick p =
     (if dash_cooldown p > 0 then p\<lparr>dash_cooldown := dash_cooldown p - 1\<rparr> else p)"

definition apply_gravity :: "config \<Rightarrow> player \<Rightarrow> player" where
  "apply_gravity cfg p = (if \<not> dashing p then p\<lparr>vel_y := vel_y p + GRAVITY cfg\<rparr> else p)"

definition apply_velocity :: "player \<Rightarrow> player" where
  "apply_velocity p = p\<lparr>p_x := p_x p + vel_x p, p_y := p_y p + vel_y p\<rparr>"

text \<open>
  The collision loop visits the platforms in list order; each platform is returned as the
  loop left it (a crumbling platform that was landed on has its countdown started).
\<close>

fun collision_detection :: "config \<Rightarrow> player \<Rightarrow> platform list \<Rightarrow> player \<times> platform list" where
  "collision_detection cfg p [] = (p, [])"
| "collision_detection cfg p (pf # pfs) =
     (let (p1, pf1) = (if check_collision p pf then handle_collision cfg p pf else (p, pf));
          (p2, rest) = collision_detection cfg p1 pfs
      in (p2, pf1 # rest))"

definition Player_update :: "config \<Rightarrow> keys \<Rightarrow> platform list \<Rightarrow> player \<Rightarrow> player \<times> platform list" where
  "Player_update cfg ks platforms p =
     (let p1 = horizontal_movement cfg ks p;
          p2 = update_coyote_time cfg p1;
          p3 = jumping cfg ks p2;
          p4 = dash_mechanic cfg ks p3;
          p5 = handle_dash cfg p4;
          p6 = cooldown_tick p5;
          p7 = apply_gravity cfg p6;
          p8 = apply_velocity p7
      in collision_detection cfg (p8\<lparr>on_ground := False\<rparr>) platforms)"

subsection \<open>Camera\<close>

record camera =
  cam_x :: real
  cam_y :: real
  target_x :: real
  target_y :: real
  smoothness :: real

definition Camera :: camera where
  "Camera = \<lparr> cam_x = 0, cam_y = 0, target_x = 0, target_y = 0, smoothness = 1 / 10 \<rparr>"

definition Camera_update :: "config \<Rightarrow> player \<Rightarrow> camera \<Rightarrow> camera" where
  "Camera_update cfg pl c =
     (let tx = max 0 (p_x pl - of_int (SCREEN_WIDTH cfg div 3));
          ty = p_y pl - of_int (SCREEN_HEIGHT cfg div 2)
      in c\<lparr>target_x := tx, target_y := ty,
           cam_x := cam_x c + (tx - cam_x c) * smoothness c,
           cam_y := cam_y c + (ty - cam_y c) * smoothness c\<rparr>)"

definition get_x :: "camera \<Rightarrow> int" where
  "get_x c = py_int (cam_x c)"

definition get_y :: "camera \<Rightarrow> int" where
  "get_y c = py_int (cam_y c)"

subsection \<open>The random stream\<close>

text \<open>
  The \<^verbatim>\<open>random\<close> module belongs to the Python library, not to this program, so its
  generator is a parameter: a type \<open>'g\<close> of stream states with the three operations the
  program calls. \<^verbatim>\<open>random.seed(n)\<close> replaces the process-wide state by one that depends on
  \<open>n\<close> only; \<^verbatim>\<open>random.randint\<close> and \<^verbatim>\<open>random.random\<close> return a value and advance the state.
  \<^verbatim>\<open>random.randint(a, b)\<close> raises \<^verbatim>\<open>ValueError\<close> on an empty range.
\<close>

record 'g rng_ops =
  rng_seed :: "int \<Rightarrow> 'g"
  rng_randint :: "int \<Rightarrow> int \<Rightarrow> 'g \<Rightarrow> int \<times> 'g"
  rng_random :: "'g \<Rightarrow> real \<times> 'g"

definition py_randint :: "'g rng_ops \<Rightarrow> int \<Rightarrow> int \<Rightarrow> 'g \<Rightarrow> py_error + (int \<times> 'g)" where
  "py_randint R a b g = (if a \<le> b then Inr (rng_randint R a b g) else Inl ValueError)"

text \<open>
  A small concrete stream on which the model can be run: the state is a counter, a draw
  reads the counter and increments it, and seeding sets the counter to the absolute value
  of the seed. Its draws respect the bounds they are given.
\<close>

definition counter_rng :: "nat rng_ops" where
  "counter_rng =
     \<lparr> rng_seed = (\<lambda>n. nat \<bar>n\<bar>),
       rng_randint = (\<lambda>a b g. (a + int g mod (b - a + 1), Suc g)),
       rng_random = (\<lambda>g. (real (g mod 10) / 10, Suc g)) \<rparr>"

subsection \<open>PlatformGenerator\<close>

record generator =
  seed :: int
  platforms :: "platform list"
  last_platform_x :: int
  last_platform_y :: int
  difficulty :: real

definition generate_starting_platform :: "generator \<Rightarrow> generator" where
  "generate_starting_platform s =
     s\<lparr>platforms := platforms s @ [Platform 0 400 250 NORMAL],
       last_platform_x := 0, last_platform_y := 400\<rparr>"

definition choose_platform_type :: "'g rng_ops \<Rightarrow> generator \<Rightarrow> 'g \<Rightarrow> PlatformType \<times> 'g" where
  "choose_platform_type R s g =
     (if difficulty s < 1 / 2 then (NORMAL, g)
      else (let (rand_val, g1) = rng_random R g
            in (if rand_val < 1 / 2 then NORMAL
                else if rand_val < 65 / 100 + difficulty s * (5 / 100) then CRUMBLING
                else if rand_val < 8 / 10 + difficulty s * (3 / 100) then BOUNCY
                else MOVING, g1)))"

definition generate_platform ::
  "config \<Rightarrow> 'g rng_ops \<Rightarrow> generator \<times> 'g \<Rightarrow> py_error + (generator \<times> 'g)" where
  "generate_platform cfg R sg =
     (let (s, g) = sg;
          base_spacing = 150;
          spacing_variance = 50 + py_int (difficulty s * 30)
      in (case py_randint R (- 50) spacing_variance g of
            Inl e \<Rightarrow> Inl e
          | Inr (r1, g1) \<Rightarrow>
             (let spacing = max 80 (base_spacing + r1);
                  vertical_variance = 80 + py_int (difficulty s * 40)
              in (case py_randint R (- vertical_variance) vertical_variance g1 of
                    Inl e \<Rightarrow> Inl e
                  | Inr (vertical_offset, g2) \<Rightarrow>
                     (let new_x = last_platform_x s + spacing;
                          new_y = max 150 (min (last_platform_y s + vertical_offset)
                                               (SCREEN_HEIGHT cfg - 100));
                          base_width = 150;
                          width_reduction = py_int (difficulty s * 20)
                      in (case py_randint R (- 30) 30 g2 of
                            Inl e \<Rightarrow> Inl e
                          | Inr (r3, g3) \<Rightarrow>
                             (let width = max 60 (base_width - width_reduction + r3);
                                  (ptype, g4) = choose_platform_type R s g3
                              in Inr (s\<lparr>platforms :=
                                          platforms s @ [Platform new_x new_y width ptype],
                                        last_platform_x := new_x,
                                        last_platform_y := new_y,
                                        difficulty := min (of_int new_x / 1000) 5\<rparr>,
                                      g4))))))))"

text \<open>\<^verbatim>\<open>for _ in range(n): self.generate_platform()\<close>\<close>

fun generate_platforms ::
  "config \<Rightarrow> 'g rng_ops \<Rightarrow> nat \<Rightarrow> generator \<times> 'g \<Rightarrow> py_error + (generator \<times> 'g)" where
  "generate_platforms cfg R 0 sg = Inr sg"
| "generate_platforms cfg R (Suc n) sg =
     (case generate_platform cfg R sg of
        Inl e \<Rightarrow> Inl e
      | Inr sg' \<Rightarrow> generate_platforms cfg R n sg')"

text \<open>
  The constructor. Its argument is \<open>None\<close> for the default \<^verbatim>\<open>seed=None\<close>. The test
  \<^verbatim>\<open>seed if seed else ...\<close> is Python truthiness: \<^verbatim>\<open>None\<close> and \<^verbatim>\<open>0\<close> are both false.
  The third argument is the state of the process-wide stream when the constructor is called.
\<close>

definition PlatformGenerator ::
  "config \<Rightarrow> 'g rng_ops \<Rightarrow> int option \<Rightarrow> 'g \<Rightarrow> py_error + (generator \<times> 'g)" where
  "PlatformGenerator cfg R seed_arg g =
     (case (case seed_arg of
              Some n \<Rightarrow> if n \<noteq> 0 then Inr (n, g) else py_randint R 0 1000000 g
            | None \<Rightarrow> py_randint R 0 1000000 g) of
        Inl e \<Rightarrow> Inl e
      | Inr (sd, g1) \<Rightarrow>
          (let g2 = rng_seed R sd;
               s0 = \<lparr> seed = sd, platforms = [], last_platform_x = 0,
                      last_platform_y = 400, difficulty = 0 \<rparr>
           in generate_platforms cfg R 15 (generate_starting_platform s0, g2)))"

text \<open>
  The loop \<^verbatim>\<open>while self.last_platform_x < camera_x + SCREEN_WIDTH + 500\<close> of
  \<^verbatim>\<open>PlatformGenerator.update\<close>. Every round moves \<open>last_platform_x\<close> forward by at least 80,
  which is why it terminates.
\<close>

function generate_ahead ::
  "config \<Rightarrow> 'g rng_ops \<Rightarrow> real \<Rightarrow> generator \<times> 'g \<Rightarrow> py_error + (generator \<times> 'g)" where
  "generate_ahead cfg R camera_x sg =
     (if of_int (last_platform_x (fst sg)) < camera_x + of_int (SCREEN_WIDTH cfg) + 500
      then (case generate_platform cfg R sg of
              Inl e \<Rightarrow> Inl e
            | Inr sg' \<Rightarrow> generate_ahead cfg R camera_x sg')
      else Inr sg)"
  by pat_completeness auto
termination
proof (relation "measure (\<lambda>(cfg, R, camera_x, sg).
         nat \<lceil>camera_x + of_int (SCREEN_WIDTH cfg) + 500 - of_int (last_platform_x (fst sg))\<rceil>)")
  show "wf (measure (\<lambda>(cfg, R, camera_x, sg).
         nat \<lceil>camera_x + of_int (SCREEN_WIDTH cfg) + 500 - of_int (last_platform_x (fst sg))\<rceil>))"
    by simp
next
  fix cfg :: config and R :: "'g rng_ops" and camera_x :: real
    and sg sg' :: "generator \<times> 'g"
  assume lt: "of_int (last_platform_x (fst sg)) < camera_x + of_int (SCREEN_WIDTH cfg) + 500"
    and gen: "generate_platform cfg R sg = Inr sg'"
  from gen have "last_platform_x (fst sg) + 80 \<le> last_platform_x (fst sg')"
    by (auto simp: generate_platform_def Let_def split_def split: sum.splits)
  then have "real_of_int (last_platform_x (fst sg)) + 80 \<le> of_int (last_platform_x (fst sg'))"
    by linarith
  with lt have
    "\<lceil>camera_x + of_int (SCREEN_WIDTH cfg) + 500 - of_int (last_platform_x (fst sg'))\<rceil>
       < \<lceil>camera_x + of_int (SCREEN_WIDTH cfg) + 500 - of_int (last_platform_x (fst sg))\<rceil>"
    and "0 < \<lceil>camera_x + of_int (SCREEN_WIDTH cfg) + 500 - of_int (last_platform_x (fst sg))\<rceil>"
    by linarith+
  then show "((cfg, R, camera_x, sg'), (cfg, R, camera_x, sg)) \<in>
       measure (\<lambda>(cfg, R, camera_x, sg).
         nat \<lceil>camera_x + of_int (SCREEN_WIDTH cfg) + 500 - of_int (last_platform_x (fst sg))\<rceil>)"
    by simp
qed

declare generate_ahead.simps [simp del]

definition PlatformGenerator_update ::
  "config \<Rightarrow> 'g rng_ops \<Rightarrow> player \<Rightarrow> generator \<times> 'g \<Rightarrow> py_error + (generator \<times> 'g)" where
  "PlatformGenerator_update cfg R pl sg =
     (let (s, g) = sg;
          camera_x = p_x pl - of_int (SCREEN_WIDTH cfg div 3);
          s1 = s\<lparr>platforms := filter (\<lambda>p. of_int (pf_x p) > camera_x - 500) (platforms s)\<rparr>
      in case generate_ahead cfg R camera_x (s1, g) of
           Inl e \<Rightarrow> Inl e
         | Inr (s2, g2) \<Rightarrow> Inr (s2\<lparr>platforms := map Platform_update (platforms s2)\<rparr>, g2))"

definition get_active_platforms :: "generator \<Rightarrow> platform list" where
  "get_active_platforms s = filter active (platforms s)"

subsection \<open>Game\<close>

text \<open>The simulation state of \<^verbatim>\<open>Game\<close>; the window, clock and fonts are not part of it.\<close>

record game =
  player :: player
  generator :: generator
  camera :: camera
  score :: int
  game_over :: bool

definition reset_game :: "config \<Rightarrow> 'g rng_ops \<Rightarrow> 'g \<Rightarrow> py_error + (game \<times> 'g)" where
  "reset_game cfg R g =
     (case py_randint R 0 1000000 g of
        Inl e \<Rightarrow> Inl e
      | Inr (sd, g1) \<Rightarrow>
          (case PlatformGenerator cfg R (Some sd) g1 of
             Inl e \<Rightarrow> Inl e
           | Inr (gen, g2) \<Rightarrow>
               Inr (\<lparr> player = Player 100 300, generator = gen, camera = Camera,
                      score = 0, game_over = False \<rparr>, g2)))"

text \<open>
  \<^verbatim>\<open>get_active_platforms\<close> returns a new list holding the same platform objects as
  \<^verbatim>\<open>generator.platforms\<close>, so a countdown started during collision handling is a change of
  the generator's platform. \<open>write_back ps us\<close> puts the platforms \<open>us\<close> that
  \<open>Player_update\<close> returns at the positions of the active platforms of \<open>ps\<close>.
\<close>

fun write_back :: "platform list \<Rightarrow> platform list \<Rightarrow> platform list" where
  "write_back [] us = []"
| "write_back (p # ps) us =
     (if active p
      then (case us of [] \<Rightarrow> p # ps | u # us' \<Rightarrow> u # write_back ps us')
      else p # write_back ps us)"

text \<open>\<^verbatim>\<open>Game.update\<close>; the argument \<open>ks\<close> is what \<^verbatim>\<open>pygame.key.get_pressed()\<close> returns.\<close>

definition Game_update ::
  "config \<Rightarrow> 'g rng_ops \<Rightarrow> keys \<Rightarrow> game \<times> 'g \<Rightarrow> py_error + (game \<times> 'g)" where
  "Game_update cfg R ks Gg =
     (let (G, g) = Gg
      in if game_over G then Inr (G, g)
         else (case PlatformGenerator_update cfg R (player G) (generator G, g) of
                 Inl e \<Rightarrow> Inl e
               | Inr (gen1, g1) \<Rightarrow>
                  (let (pl1, touched) =
                         Player_update cfg ks (get_active_platforms gen1) (player G);
                       gen2 = gen1\<lparr>platforms := write_back (platforms gen1) touched\<rparr>;
                       cam1 = Camera_update cfg pl1 (camera G);
                       score1 = max (score G) (py_int (p_x pl1 / 10));
                       G1 = G\<lparr>player := pl1, generator := gen2, camera := cam1,
                              score := score1\<rparr>
                   in if p_y pl1 > of_int (get_y cam1 + SCREEN_HEIGHT cfg + 100)
                      then Inr (G1\<lparr>game_over := True\<rparr>, g1)
                      else Inr (G1, g1))))"

text \<open>A run of ticks, one key snapshot per tick.\<close>

fun Game_run ::
  "config \<Rightarrow> 'g rng_ops \<Rightarrow> keys list \<Rightarrow> game \<times> 'g \<Rightarrow> py_error + (game \<times> 'g)" where
  "Game_run cfg R [] Gg = Inr Gg"
| "Game_run cfg R (ks # kss) Gg =
     (case Game_update cfg R ks Gg of
        Inl e \<Rightarrow> Inl e
      | Inr Gg' \<Rightarrow> Game_run cfg R kss Gg')"

subsection \<open>Auxiliary notions for the statements\<close>

text \<open>The seed the constructor ends up with, for a given argument and stream state.\<close>

definition chosen_seed :: "'g rng_ops \<Rightarrow> int option \<Rightarrow> 'g \<Rightarrow> int" where
  "chosen_seed R seed_arg g =
     (case seed_arg of
        Some n \<Rightarrow> if n \<noteq> 0 then n else fst (rng_randint R 0 1000000 g)
      | None \<Rightarrow> fst (rng_randint R 0 1000000 g))"

text \<open>The relation between \<open>difficulty\<close> and \<open>last_platform_x\<close> that the generator maintains.\<close>

definition gen_inv :: "generator \<Rightarrow> bool" where
  "gen_inv s \<longleftrightarrow> 0 \<le> last_platform_x s \<and> difficulty s = min (of_int (last_platform_x s) / 1000) 5"

text \<open>The clamp of the specification: \<open>clamp v lo hi\<close> limits \<open>v\<close> to the interval from \<open>lo\<close> to \<open>hi\<close>.\<close>

definition clamp :: "real \<Rightarrow> real \<Rightarrow> real \<Rightarrow> real" where
  "clamp v lo hi = max lo (min v hi)"

text \<open>
  The generator states that can arise: the result of the constructor, and what any
  sequence of \<^verbatim>\<open>generate_platform\<close> and \<^verbatim>\<open>update\<close> calls makes of it. The stream state at
  each call is arbitrary, because other code may have drawn from the process-wide stream
  in between.
\<close>

inductive reachable :: "config \<Rightarrow> 'g rng_ops \<Rightarrow> generator \<Rightarrow> bool" for cfg R where
  constructed: "PlatformGenerator cfg R seed_arg g = Inr (s, g') \<Longrightarrow> reachable cfg R s"
| generated: "reachable cfg R s \<Longrightarrow> generate_platform cfg R (s, g) = Inr (s', g')
                \<Longrightarrow> reachable cfg R s'"
| updated: "reachable cfg R s \<Longrightarrow> PlatformGenerator_update cfg R pl (s, g) = Inr (s', g')
                \<Longrightarrow> reachable cfg R s'"

subsection \<open>Concrete scenarios\<close>

text \<open>
  A generator built with seed 1 on the counter stream, and two calls of its \<^verbatim>\<open>update\<close>:
  one for a player at \<open>x = 1500\<close>, one for a player far ahead at \<open>x = 3000\<close>.
\<close>

definition seeded_generator :: "generator \<times> nat" where
  "seeded_generator = projr (PlatformGenerator default_config counter_rng (Some 1) 0)"

definition walk_update :: "py_error + (generator \<times> nat)" where
  "walk_update =
     PlatformGenerator_update default_config counter_rng (Player 1500 300) seeded_generator"

definition far_update :: "py_error + (generator \<times> nat)" where
  "far_update =
     PlatformGenerator_update default_config counter_rng (Player 3000 300) seeded_generator"

text \<open>
  Two generators built one after the other with the same seed 1, each of which then
  generates one more platform: first the one built first, then the other.
\<close>

definition two_generators :: "py_error + (generator \<times> generator)" where
  "two_generators =
     (case PlatformGenerator default_config counter_rng (Some 1) 0 of
        Inl e \<Rightarrow> Inl e
      | Inr (A, g1) \<Rightarrow>
     (case PlatformGenerator default_config counter_rng (Some 1) g1 of
        Inl e \<Rightarrow> Inl e
      | Inr (B, g2) \<Rightarrow>
     (case generate_platform default_config counter_rng (A, g2) of
        Inl e \<Rightarrow> Inl e
      | Inr (A', g3) \<Rightarrow>
     (case generate_platform default_config counter_rng (B, g3) of
        Inl e \<Rightarrow> Inl e
      | Inr (B', g4) \<Rightarrow> Inr (A', B')))))"

text \<open>
  A generator built with seed 1 when the process-wide stream is in state \<open>g\<close>, followed at
  once by two more \<^verbatim>\<open>generate_platform\<close> calls.
\<close>

definition seeded_run :: "nat \<Rightarrow> py_error + (generator \<times> nat)" where
  "seeded_run g =
     (case PlatformGenerator default_config counter_rng (Some 1) g of
        Inl e \<Rightarrow> Inl e
      | Inr sg \<Rightarrow> generate_platforms default_config counter_rng 2 sg)"

text \<open>Module constants with the wrong signs throughout.\<close>

definition malformed_config :: config where
  "malformed_config =
     \<lparr> SCREEN_WIDTH = - 1000, SCREEN_HEIGHT = - 600, GRAVITY = - (7 / 10), PLAYER_SPEED = - 6,
       JUMP_STRENGTH = 15, DASH_SPEED = - 20, DASH_DURATION = - 10, COYOTE_TIME = 0 \<rparr>"

text \<open>A run of \<^verbatim>\<open>Player.update\<close> calls, one key snapshot per tick, on one list of platforms.\<close>

fun Player_run :: "config \<Rightarrow> keys list \<Rightarrow> platform list \<Rightarrow> player \<Rightarrow> player \<times> platform list" where
  "Player_run cfg [] pfs p = (p, pfs)"
| "Player_run cfg (ks # kss) pfs p =
     (let (p', pfs') = Player_update cfg ks pfs p in Player_run cfg kss pfs' p')"

text \<open>Key snapshots and a player standing near the right edge of the starting platform.\<close>

definition no_keys :: keys where
  "no_keys = \<lparr> K_LEFT = False, K_RIGHT = False, K_UP = False, K_DOWN = False,
               K_z = False, K_x = False \<rparr>"

definition walk_keys :: keys where
  "walk_keys = no_keys\<lparr>K_RIGHT := True\<rparr>"

definition walk_jump_keys :: keys where
  "walk_jump_keys = no_keys\<lparr>K_RIGHT := True, K_z := True\<rparr>"

definition up_dash_keys :: keys where
  "up_dash_keys = no_keys\<lparr>K_UP := True, K_x := True\<rparr>"

definition standing_player :: player where
  "standing_player = (Player 245 360)\<lparr>on_ground := True, coyote_timer := 6\<rparr>"

text \<open>
  A run of \<^verbatim>\<open>Player.update\<close> calls in which every tick has its own key snapshot and its
  own list of platforms, as in the session; only the player is followed. \<open>off_ground\<close> says
  that every tick of such a run ends with \<open>on_ground\<close> false.
\<close>

fun Player_ticks :: "config \<Rightarrow> (keys \<times> platform list) list \<Rightarrow> player \<Rightarrow> player" where
  "Player_ticks cfg [] p = p"
| "Player_ticks cfg ((ks, pfs) # ts) p = Player_ticks cfg ts (fst (Player_update cfg ks pfs p))"

fun off_ground :: "config \<Rightarrow> (keys \<times> platform list) list \<Rightarrow> player \<Rightarrow> bool" where
  "off_ground cfg [] p = True"
| "off_ground cfg ((ks, pfs) # ts) p =
     (\<not> on_ground (fst (Player_update cfg ks pfs p))
      \<and> off_ground cfg ts (fst (Player_update cfg ks pfs p)))"

text \<open>One tick of walking right with the starting platform as the only platform.\<close>

definition walk_tick :: "keys \<times> platform list" where
  "walk_tick = (walk_keys, [Platform 0 400 250 NORMAL])"

text \<open>
  A session in which the player is in free fall below the platforms, not yet over: the
  player is at \<open>y = 1693.4\<close>, falling at \<open>50.4\<close> per tick, the camera is at \<open>y = 1000.5\<close>,
  and \<open>1693.4\<close> is not above \<open>1000 + 600 + 100\<close>. \<open>fallen_update\<close> is one tick of it with
  no key held.
\<close>

definition falling_game :: game where
  "falling_game =
     \<lparr> player = (Player 300 (16934 / 10))\<lparr>vel_y := 504 / 10\<rparr>,
       generator = fst seeded_generator,
       camera = Camera\<lparr>cam_x := 0, cam_y := 10005 / 10\<rparr>,
       score = 30, game_over = False \<rparr>"

definition fallen_update :: "py_error + (game \<times> nat)" where
  "fallen_update = Game_update default_config counter_rng no_keys (falling_game, snd seeded_generator)"

section \<open>Properties\<close>

text \<open>
  The square root is evaluated exactly at 0 and 1, the only arguments that the runs below
  meet (a dash along one axis); everywhere else it stays as it is.
\<close>

lemma sqrt_code [code]:
  "sqrt x = (if x = 0 then 0 else if x = 1 then 1 else Code.abort (STR ''sqrt'') (\<lambda>_. sqrt x))"
  by simp

subsection \<open>Platform\<close>

lemma Platform_update_pf_x [simp]: "pf_x (Platform_update p) = pf_x p"
  by (simp add: Platform_update_def Let_def)

lemma Platform_update_step:
  "platform_type q = CRUMBLING \<Longrightarrow> 1 < crumble_timer q \<Longrightarrow>
     crumble_timer (Platform_update q) = crumble_timer q - 1
     \<and> platform_type (Platform_update q) = CRUMBLING
     \<and> active (Platform_update q) = active q"
  by (simp add: Platform_update_def Let_def)

text \<open>
  A crumbling platform that was just touched keeps a running countdown for the next 29
  ticks, and a further contact during that time changes nothing.
\<close>

lemma crumble_countdown:
  "platform_type p = CRUMBLING \<Longrightarrow> 0 < crumble_timer p \<Longrightarrow> n < nat (crumble_timer p) \<Longrightarrow>
     crumble_timer ((Platform_update ^^ n) p) = crumble_timer p - int n
     \<and> platform_type ((Platform_update ^^ n) p) = CRUMBLING
     \<and> active ((Platform_update ^^ n) p) = active p"
proof (induction n)
  case 0
  then show ?case by simp
next
  case (Suc n)
  let ?q = "(Platform_update ^^ n) p"
  from Suc have q: "crumble_timer ?q = crumble_timer p - int n"
    "platform_type ?q = CRUMBLING" "active ?q = active p"
    by simp_all
  from Suc.prems have "1 < crumble_timer ?q" using q(1) by linarith
  with q show ?case by (simp add: Platform_update_step)
qed

lemma start_crumble_again:
  assumes "platform_type p = CRUMBLING" and "crumble_timer p = 0" and "n < 30"
  shows "start_crumble ((Platform_update ^^ n) (start_crumble p))
           = (Platform_update ^^ n) (start_crumble p)"
proof -
  have "crumble_timer ((Platform_update ^^ n) (start_crumble p)) = 30 - int n"
    using assms crumble_countdown [of "start_crumble p" n] by (simp add: start_crumble_def)
  with assms show ?thesis by (simp add: start_crumble_def)
qed

text \<open>
  Claim C7. While the decay countdown of a platform is running (\<open>crumble_timer > 0\<close>),
  a call of \<open>start_crumble\<close> leaves the platform, and so its \<open>crumble_timer\<close>, unchanged.
\<close>

theorem start_crumble_idempotent_while_running:
  "0 < crumble_timer p \<Longrightarrow> start_crumble p = p"
  by (simp add: start_crumble_def)

theorem start_crumble_idempotent_while_running_witness:
  "0 < crumble_timer (start_crumble (Platform 300 400 120 CRUMBLING))
   \<and> crumble_timer (start_crumble (Platform 300 400 120 CRUMBLING)) = 30
   \<and> start_crumble (start_crumble (Platform 300 400 120 CRUMBLING))
       = start_crumble (Platform 300 400 120 CRUMBLING)"
  using start_crumble_idempotent_while_running
          [of "start_crumble (Platform 300 400 120 CRUMBLING)"]
  by (simp add: start_crumble_def Platform_def)

subsection \<open>PlatformGenerator\<close>

lemma py_int_nonneg: "0 \<le> v \<Longrightarrow> 0 \<le> py_int v"
  by (simp add: py_int_def)

lemma py_randint_ok: "a \<le> b \<Longrightarrow> py_randint R a b g = Inr (rng_randint R a b g)"
  by (simp add: py_randint_def)

lemma gen_inv_difficulty: "gen_inv s \<Longrightarrow> 0 \<le> difficulty s"
  by (simp add: gen_inv_def)

lemma generate_platform_Inr:
  assumes "generate_platform cfg R (s, g) = Inr (s', g')"
  shows "seed s' = seed s"
    and "last_platform_x s + 80 \<le> last_platform_x s'"
    and "difficulty s' = min (of_int (last_platform_x s') / 1000) 5"
    and "\<exists>pf. platforms s' = platforms s @ [pf] \<and> pf_x pf = last_platform_x s'"
  using assms
  by (auto simp: generate_platform_def Let_def split_def Platform_def split: sum.splits)

lemma generate_platform_total:
  assumes "0 \<le> difficulty s"
  shows "\<exists>s' g'. generate_platform cfg R (s, g) = Inr (s', g')"
proof -
  have a: "0 \<le> py_int (difficulty s * 30)" "0 \<le> py_int (difficulty s * 40)"
    using assms by (simp_all add: py_int_nonneg)
  then show ?thesis
    by (simp add: generate_platform_def Let_def split_def py_randint_ok)
qed

lemma generate_platform_inv:
  assumes "gen_inv s" "generate_platform cfg R (s, g) = Inr (s', g')"
  shows "gen_inv s'"
  using generate_platform_Inr(2,3)[OF assms(2)] assms(1) by (simp add: gen_inv_def)


lemma generate_platforms_Inr:
  "generate_platforms cfg R n (s, g) = Inr (s', g') \<Longrightarrow> gen_inv s \<Longrightarrow>
     gen_inv s' \<and> seed s' = seed s"
proof (induction n arbitrary: s g)
  case 0
  then show ?case by simp
next
  case (Suc n)
  from Suc.prems(1) obtain s1 g1 where
    step: "generate_platform cfg R (s, g) = Inr (s1, g1)"
    and rest: "generate_platforms cfg R n (s1, g1) = Inr (s', g')"
    by (auto split: sum.splits)
  from generate_platform_inv [OF Suc.prems(2) step] have "gen_inv s1" .
  with Suc.IH [OF rest] generate_platform_Inr(1) [OF step] show ?case by simp
qed

lemma generate_platforms_total:
  "gen_inv s \<Longrightarrow> \<exists>s' g'. generate_platforms cfg R n (s, g) = Inr (s', g')"
proof (induction n arbitrary: s g)
  case 0
  then show ?case by simp
next
  case (Suc n)
  from generate_platform_total [OF gen_inv_difficulty [OF Suc.prems], where cfg = cfg and R = R and g = g]
  obtain s1 g1 where step: "generate_platform cfg R (s, g) = Inr (s1, g1)" by blast
  from generate_platform_inv [OF Suc.prems step] have "gen_inv s1" .
  from Suc.IH [OF this] obtain s' g' where "generate_platforms cfg R n (s1, g1) = Inr (s', g')"
    by blast
  with step show ?case by simp
qed

lemma PlatformGenerator_unfold:
  "PlatformGenerator cfg R seed_arg g =
     generate_platforms cfg R 15
       (generate_starting_platform
          \<lparr> seed = chosen_seed R seed_arg g, platforms = [], last_platform_x = 0,
            last_platform_y = 400, difficulty = 0 \<rparr>,
        rng_seed R (chosen_seed R seed_arg g))"
  by (simp add: PlatformGenerator_def chosen_seed_def py_randint_ok split_def Let_def
           split: option.splits)

lemma gen_inv_start:
  "gen_inv (generate_starting_platform
      \<lparr> seed = sd, platforms = [], last_platform_x = 0, last_platform_y = 400, difficulty = 0 \<rparr>)"
  by (simp add: gen_inv_def generate_starting_platform_def)

lemma PlatformGenerator_total:
  "\<exists>s g'. PlatformGenerator cfg R seed_arg g = Inr (s, g')"
  unfolding PlatformGenerator_unfold
  by (rule generate_platforms_total [OF gen_inv_start])

lemma PlatformGenerator_Inr:
  assumes "PlatformGenerator cfg R seed_arg g = Inr (s, g')"
  shows "gen_inv s" and "seed s = chosen_seed R seed_arg g"
  using generate_platforms_Inr [OF assms [unfolded PlatformGenerator_unfold] gen_inv_start]
  by (simp_all add: generate_starting_platform_def)

lemma generate_ahead_Inr:
  "generate_ahead cfg R cx sg = Inr sg' \<Longrightarrow> gen_inv (fst sg) \<Longrightarrow>
     gen_inv (fst sg') \<and> seed (fst sg') = seed (fst sg)"
proof (induction cfg R cx sg rule: generate_ahead.induct)
  case (1 cfg R cx sg)
  show ?case
  proof (cases "of_int (last_platform_x (fst sg)) < cx + of_int (SCREEN_WIDTH cfg) + 500")
    case True
    with "1.prems"(1) obtain sg1 where
      step: "generate_platform cfg R sg = Inr sg1"
      and rest: "generate_ahead cfg R cx sg1 = Inr sg'"
      by (subst (asm) generate_ahead.simps) (auto split: sum.splits)
    from step have step': "generate_platform cfg R (fst sg, snd sg) = Inr (fst sg1, snd sg1)"
      by simp
    from generate_platform_inv [OF "1.prems"(2) step'] have "gen_inv (fst sg1)" .
    from "1.IH" [OF True step rest this] generate_platform_Inr(1) [OF step']
    show ?thesis by simp
  next
    case False
    with "1.prems" show ?thesis
      by (subst (asm) generate_ahead.simps) simp
  qed
qed

lemma generate_ahead_total:
  "gen_inv (fst sg) \<Longrightarrow> \<exists>sg'. generate_ahead cfg R cx sg = Inr sg'"
proof (induction cfg R cx sg rule: generate_ahead.induct)
  case (1 cfg R cx sg)
  show ?case
  proof (cases "of_int (last_platform_x (fst sg)) < cx + of_int (SCREEN_WIDTH cfg) + 500")
    case True
    from generate_platform_total
           [OF gen_inv_difficulty [OF "1.prems"], where cfg = cfg and R = R and g = "snd sg"]
    obtain sg1 where step: "generate_platform cfg R sg = Inr sg1" by auto
    then have step': "generate_platform cfg R (fst sg, snd sg) = Inr (fst sg1, snd sg1)"
      by simp
    from generate_platform_inv [OF "1.prems" step'] have "gen_inv (fst sg1)" .
    from "1.IH" [OF True step this] obtain sg' where "generate_ahead cfg R cx sg1 = Inr sg'"
      by blast
    with True step show ?thesis
      by (subst generate_ahead.simps) simp
  next
    case False
    then show ?thesis by (subst generate_ahead.simps) simp
  qed
qed

lemma generate_ahead_platforms:
  "generate_ahead cfg R cx sg = Inr sg' \<Longrightarrow>
     \<exists>new. platforms (fst sg') = platforms (fst sg) @ new
        \<and> (\<forall>p \<in> set new. last_platform_x (fst sg) + 80 \<le> pf_x p)
        \<and> last_platform_x (fst sg) \<le> last_platform_x (fst sg')"
proof (induction cfg R cx sg rule: generate_ahead.induct)
  case (1 cfg R cx sg)
  show ?case
  proof (cases "of_int (last_platform_x (fst sg)) < cx + of_int (SCREEN_WIDTH cfg) + 500")
    case True
    with "1.prems"(1) obtain sg1 where
      step: "generate_platform cfg R sg = Inr sg1"
      and rest: "generate_ahead cfg R cx sg1 = Inr sg'"
      by (subst (asm) generate_ahead.simps) (auto split: sum.splits)
    from step have step': "generate_platform cfg R (fst sg, snd sg) = Inr (fst sg1, snd sg1)"
      by simp
    from generate_platform_Inr(4) [OF step'] obtain pf where
      pf: "platforms (fst sg1) = platforms (fst sg) @ [pf]" "pf_x pf = last_platform_x (fst sg1)"
      by blast
    note grow = generate_platform_Inr(2) [OF step']
    from "1.IH" [OF True step rest] obtain new where
      new: "platforms (fst sg') = platforms (fst sg1) @ new"
        "\<forall>p \<in> set new. last_platform_x (fst sg1) + 80 \<le> pf_x p"
        "last_platform_x (fst sg1) \<le> last_platform_x (fst sg')"
      by blast
    have "platforms (fst sg') = platforms (fst sg) @ (pf # new)"
      using pf new by simp
    moreover have "\<forall>p \<in> set (pf # new). last_platform_x (fst sg) + 80 \<le> pf_x p"
      using pf new grow by auto
    moreover have "last_platform_x (fst sg) \<le> last_platform_x (fst sg')"
      using new grow by linarith
    ultimately show ?thesis by blast
  next
    case False
    with "1.prems" have "sg' = sg"
      by (subst (asm) generate_ahead.simps) simp
    then show ?thesis by simp
  qed
qed


lemma PlatformGenerator_update_Inr:
  assumes "PlatformGenerator_update cfg R pl (s, g) = Inr (s', g')"
  shows "\<exists>new. platforms s' =
            map Platform_update
              (filter (\<lambda>p. p_x pl - of_int (SCREEN_WIDTH cfg div 3) - 500 < of_int (pf_x p))
                 (platforms s) @ new)
          \<and> (\<forall>p \<in> set new. last_platform_x s + 80 \<le> pf_x p)"
    and "gen_inv s \<Longrightarrow> gen_inv s'"
    and "gen_inv s \<Longrightarrow> seed s' = seed s"
proof -
  let ?cx = "p_x pl - of_int (SCREEN_WIDTH cfg div 3)"
  let ?s1 = "s\<lparr>platforms := filter (\<lambda>p. ?cx - 500 < of_int (pf_x p)) (platforms s)\<rparr>"
  from assms obtain s2 where
    ahead: "generate_ahead cfg R ?cx (?s1, g) = Inr (s2, g')"
    and s': "s' = s2\<lparr>platforms := map Platform_update (platforms s2)\<rparr>"
    by (auto simp: PlatformGenerator_update_def Let_def split: sum.splits)
  from generate_ahead_platforms [OF ahead] s'
  show "\<exists>new. platforms s' =
            map Platform_update (filter (\<lambda>p. ?cx - 500 < of_int (pf_x p)) (platforms s) @ new)
          \<and> (\<forall>p \<in> set new. last_platform_x s + 80 \<le> pf_x p)"
    by auto
  have inv1: "gen_inv ?s1 = gen_inv s" by (simp add: gen_inv_def)
  { assume "gen_inv s"
    with inv1 generate_ahead_Inr [OF ahead] have "gen_inv s2" "seed s2 = seed s" by simp_all
    with s' show "gen_inv s'" "seed s' = seed s" by (simp_all add: gen_inv_def) }
qed

lemma PlatformGenerator_update_total:
  assumes "gen_inv s"
  shows "\<exists>s' g'. PlatformGenerator_update cfg R pl (s, g) = Inr (s', g')"
proof -
  let ?cx = "p_x pl - of_int (SCREEN_WIDTH cfg div 3)"
  let ?s1 = "s\<lparr>platforms := filter (\<lambda>p. ?cx - 500 < of_int (pf_x p)) (platforms s)\<rparr>"
  have "gen_inv (fst (?s1, g))" using assms by (simp add: gen_inv_def)
  from generate_ahead_total [OF this, of cfg R ?cx]
  obtain s2 g2 where "generate_ahead cfg R ?cx (?s1, g) = Inr (s2, g2)" by auto
  then show ?thesis by (simp add: PlatformGenerator_update_def Let_def)
qed

lemma reachable_gen_inv: "reachable cfg R s \<Longrightarrow> gen_inv s"
proof (induction rule: reachable.induct)
  case (constructed seed_arg g s g')
  then show ?case by (rule PlatformGenerator_Inr(1))
next
  case (generated s g s' g')
  from generate_platform_inv [OF generated.IH generated.hyps(2)] show ?case .
next
  case (updated s pl g s' g')
  from PlatformGenerator_update_Inr(2) [OF updated.hyps(2) updated.IH] show ?case .
qed

lemma seeded_generator_eq:
  "PlatformGenerator default_config counter_rng (Some 1) 0 = Inr seeded_generator"
  using PlatformGenerator_total [of default_config counter_rng "Some 1" 0]
  by (auto simp: seeded_generator_def)

text \<open>
  Claim C3. In every generator state that arises from the constructor by any sequence of
  \<^verbatim>\<open>generate_platform\<close> and \<^verbatim>\<open>update\<close> calls, \<open>difficulty\<close> equals
  \<open>last_platform_x / 1000\<close> clamped to the interval from 0 to 5.
\<close>

theorem difficulty_invariant:
  "reachable cfg R s \<Longrightarrow> difficulty s = clamp (of_int (last_platform_x s) / 1000) 0 5"
proof -
  assume "reachable cfg R s"
  then have "gen_inv s" by (rule reachable_gen_inv)
  then show ?thesis by (auto simp: gen_inv_def clamp_def max_def min_def)
qed

theorem difficulty_invariant_witness:
  "reachable default_config counter_rng (fst seeded_generator)
   \<and> difficulty (fst seeded_generator) = 15 / 8
   \<and> clamp (of_int (last_platform_x (fst seeded_generator)) / 1000) 0 5 = 15 / 8"
proof -
  have r: "reachable default_config counter_rng (fst seeded_generator)"
    using seeded_generator_eq reachable.constructed [of default_config counter_rng "Some 1" 0
      "fst seeded_generator" "snd seeded_generator"]
    by simp
  have "clamp (of_int (last_platform_x (fst seeded_generator)) / 1000) 0 5 = 15 / 8"
    by code_simp
  with r difficulty_invariant [OF r] show ?thesis by simp
qed

text \<open>
  Claim C5, as amended. After \<^verbatim>\<open>update(player)\<close> the live list consists of the platforms of
  the old list with \<open>x > (player.x - SCREEN_WIDTH // 3) - 500\<close>, in their order, followed by
  the platforms generated during the call, each of them updated once; every generated
  platform has \<open>x\<close> at least 80 beyond the old \<open>last_platform_x\<close>. So when the old
  \<open>last_platform_x + 80\<close> is beyond \<open>(player.x - SCREEN_WIDTH // 3) - 500\<close>, every platform
  in the list after the call has \<open>x\<close> beyond that bound.
\<close>

theorem update_pruning:
  assumes "PlatformGenerator_update cfg R pl (s, g) = Inr (s', g')"
  shows "(\<exists>new. platforms s' =
            map Platform_update
              (filter (\<lambda>p. p_x pl - of_int (SCREEN_WIDTH cfg div 3) - 500 < of_int (pf_x p))
                 (platforms s) @ new)
          \<and> (\<forall>p \<in> set new. last_platform_x s + 80 \<le> pf_x p))
       \<and> (p_x pl - of_int (SCREEN_WIDTH cfg div 3) - 500 < of_int (last_platform_x s) + 80 \<longrightarrow>
            (\<forall>p \<in> set (platforms s').
                p_x pl - of_int (SCREEN_WIDTH cfg div 3) - 500 < of_int (pf_x p)))"
proof -
  let ?b = "p_x pl - of_int (SCREEN_WIDTH cfg div 3) - 500"
  from PlatformGenerator_update_Inr(1) [OF assms] obtain new where
    new: "platforms s' = map Platform_update (filter (\<lambda>p. ?b < of_int (pf_x p)) (platforms s) @ new)"
      "\<forall>p \<in> set new. last_platform_x s + 80 \<le> pf_x p"
    by blast
  have "\<forall>p \<in> set (platforms s'). ?b < of_int (pf_x p)"
    if front: "?b < of_int (last_platform_x s) + 80"
  proof
    fix p assume "p \<in> set (platforms s')"
    with new(1) obtain q where q: "p = Platform_update q"
      "q \<in> set (filter (\<lambda>p. ?b < of_int (pf_x p)) (platforms s)) \<or> q \<in> set new"
      by auto
    from q(2) show "?b < of_int (pf_x p)"
    proof
      assume "q \<in> set (filter (\<lambda>p. ?b < of_int (pf_x p)) (platforms s))"
      with q(1) show ?thesis by simp
    next
      assume "q \<in> set new"
      with new(2) have "last_platform_x s + 80 \<le> pf_x q" by blast
      then have "real_of_int (last_platform_x s) + 80 \<le> of_int (pf_x q)" by linarith
      with front q(1) show ?thesis by simp
    qed
  qed
  with new show ?thesis by blast
qed


theorem update_pruning_witness:
  "walk_update = Inr (projr walk_update)
   \<and> p_x (Player 1500 300) - of_int (SCREEN_WIDTH default_config div 3) - 500
        < of_int (last_platform_x (fst seeded_generator)) + 80
   \<and> filter (\<lambda>p. pf_x p \<le> 667) (platforms (fst (projr walk_update))) = []
   \<and> map pf_x (platforms (fst (projr walk_update)))
        = [771, 895, 1023, 1155, 1291, 1431, 1575, 1723, 1875, 2031, 2191, 2355, 2523, 2695]"
proof -
  have inv: "gen_inv (fst seeded_generator)"
    using PlatformGenerator_Inr(1) [of default_config counter_rng "Some 1" 0
      "fst seeded_generator" "snd seeded_generator"] seeded_generator_eq
    by simp
  from PlatformGenerator_update_total [OF inv, of default_config counter_rng "Player 1500 300"
    "snd seeded_generator"]
  have run: "walk_update = Inr (projr walk_update)"
    by (auto simp: walk_update_def)
  then have run': "PlatformGenerator_update default_config counter_rng (Player 1500 300)
      (fst seeded_generator, snd seeded_generator)
        = Inr (fst (projr walk_update), snd (projr walk_update))"
    by (simp add: walk_update_def)
  have lx: "last_platform_x (fst seeded_generator) = 1875"
    by code_simp
  have front: "p_x (Player 1500 300) - of_int (SCREEN_WIDTH default_config div 3) - 500
        < of_int (last_platform_x (fst seeded_generator)) + 80"
    by (simp add: lx Player_def default_config_def)
  have xs: "map pf_x (platforms (fst (projr walk_update)))
        = [771, 895, 1023, 1155, 1291, 1431, 1575, 1723, 1875, 2031, 2191, 2355, 2523, 2695]"
    by code_simp
  from update_pruning [OF run'] front
  have "\<forall>p \<in> set (platforms (fst (projr walk_update))).
          p_x (Player 1500 300) - of_int (SCREEN_WIDTH default_config div 3) - 500
            < of_int (pf_x p)"
    by blast
  then have "\<forall>p \<in> set (platforms (fst (projr walk_update))). 667 < pf_x p"
    by (simp add: Player_def default_config_def)
  then have none: "filter (\<lambda>p. pf_x p \<le> 667) (platforms (fst (projr walk_update))) = []"
    by (auto simp: filter_empty_conv)
  from run front none xs show ?thesis by blast
qed

text \<open>
  The claim as stated fails when the player is far ahead of the generated frontier: the
  platforms generated during the call start right after the old frontier and are not
  pruned, so the platform at \<open>x = 2031\<close> is in the list although the bound is
  \<open>3000 - 333 - 500 = 2167\<close>.
\<close>

theorem update_pruning_counterexample:
  "map_sum id
     (\<lambda>(s, g). map pf_x
        (filter (\<lambda>p. real_of_int (pf_x p)
                       \<le> p_x (Player 3000 300) - of_int (SCREEN_WIDTH default_config div 3) - 500)
                (platforms s)))
     far_update = Inr [2031]"
  by code_simp

subsection \<open>Seeding\<close>

text \<open>
  Claim C10. A generator constructed with seed 0 is the generator constructed with no seed:
  its seed is a fresh draw from the process-wide stream, so the result depends on the
  state of that stream. For a nonzero seed \<open>n\<close> the result does not depend on the state
  of the stream, and the stored seed is \<open>n\<close>.
\<close>

theorem seed_zero_treated_as_absent:
  "PlatformGenerator cfg R (Some 0) g = PlatformGenerator cfg R None g
   \<and> (\<forall>s g'. PlatformGenerator cfg R (Some 0) g = Inr (s, g')
         \<longrightarrow> seed s = fst (rng_randint R 0 1000000 g))
   \<and> (\<forall>n h. n \<noteq> 0 \<longrightarrow>
         PlatformGenerator cfg R (Some n) g = PlatformGenerator cfg R (Some n) h
         \<and> (\<forall>s g'. PlatformGenerator cfg R (Some n) g = Inr (s, g') \<longrightarrow> seed s = n))"
proof (intro conjI allI impI)
  show "PlatformGenerator cfg R (Some 0) g = PlatformGenerator cfg R None g"
    by (simp add: PlatformGenerator_def)
next
  fix s g' assume "PlatformGenerator cfg R (Some 0) g = Inr (s, g')"
  from PlatformGenerator_Inr(2) [OF this]
  show "seed s = fst (rng_randint R 0 1000000 g)" by (simp add: chosen_seed_def)
next
  fix n :: int and h :: 'a assume "n \<noteq> 0"
  then show "PlatformGenerator cfg R (Some n) g = PlatformGenerator cfg R (Some n) h"
    by (simp add: PlatformGenerator_unfold chosen_seed_def)
next
  fix n :: int and h :: 'a and s g'
  assume "n \<noteq> 0" and "PlatformGenerator cfg R (Some n) g = Inr (s, g')"
  from PlatformGenerator_Inr(2) [OF this(2)] \<open>n \<noteq> 0\<close>
  show "seed s = n" by (simp add: chosen_seed_def)
qed

theorem seed_zero_treated_as_absent_witness:
  "PlatformGenerator default_config counter_rng (Some 0) 5
     = PlatformGenerator default_config counter_rng None 5
   \<and> map_sum id (seed \<circ> fst) (PlatformGenerator default_config counter_rng (Some 0) 5) = Inr 5
   \<and> map_sum id (seed \<circ> fst) (PlatformGenerator default_config counter_rng (Some 0) 6) = Inr 6
   \<and> map_sum id (map pf_x \<circ> platforms \<circ> fst)
        (PlatformGenerator default_config counter_rng (Some 0) 5)
      \<noteq> map_sum id (map pf_x \<circ> platforms \<circ> fst)
        (PlatformGenerator default_config counter_rng (Some 0) 6)
   \<and> (7::int) \<noteq> 0
   \<and> PlatformGenerator default_config counter_rng (Some 7) 5
     = PlatformGenerator default_config counter_rng (Some 7) 6
   \<and> map_sum id (seed \<circ> fst) (PlatformGenerator default_config counter_rng (Some 7) 5) = Inr 7"
proof -
  note C = seed_zero_treated_as_absent [of default_config counter_rng]
  obtain s5 h5 where e5: "PlatformGenerator default_config counter_rng (Some 0) 5 = Inr (s5, h5)"
    using PlatformGenerator_total [of default_config counter_rng "Some 0" 5] by blast
  obtain s6 h6 where e6: "PlatformGenerator default_config counter_rng (Some 0) 6 = Inr (s6, h6)"
    using PlatformGenerator_total [of default_config counter_rng "Some 0" 6] by blast
  obtain s7 h7 where e7: "PlatformGenerator default_config counter_rng (Some 7) 5 = Inr (s7, h7)"
    using PlatformGenerator_total [of default_config counter_rng "Some 7" 5] by blast
  have draw: "fst (rng_randint counter_rng 0 1000000 5) = 5"
    "fst (rng_randint counter_rng 0 1000000 6) = 6"
    by (simp_all add: counter_rng_def)
  from C [of 5] e5 draw have a: "seed s5 = 5" by simp
  from C [of 6] e6 draw have b: "seed s6 = 6" by simp
  have seven: "(7::int) \<noteq> 0" by simp
  from C [of 5] seven e7 have c: "seed s7 = 7" by blast
  from C [of 5] seven have d: "PlatformGenerator default_config counter_rng (Some 7) 5
     = PlatformGenerator default_config counter_rng (Some 7) 6" by blast
  have e: "map_sum id (map pf_x \<circ> platforms \<circ> fst)
        (PlatformGenerator default_config counter_rng (Some 0) 5)
      \<noteq> map_sum id (map pf_x \<circ> platforms \<circ> fst)
        (PlatformGenerator default_config counter_rng (Some 0) 6)"
    by code_simp
  from C [of 5] have f: "PlatformGenerator default_config counter_rng (Some 0) 5
     = PlatformGenerator default_config counter_rng None 5" by blast
  have a': "map_sum id (seed \<circ> fst) (PlatformGenerator default_config counter_rng (Some 0) 5) = Inr 5"
    using a e5 by simp
  have b': "map_sum id (seed \<circ> fst) (PlatformGenerator default_config counter_rng (Some 0) 6) = Inr 6"
    using b e6 by simp
  have c': "map_sum id (seed \<circ> fst) (PlatformGenerator default_config counter_rng (Some 7) 5) = Inr 7"
    using c e7 by simp
  from f a' b' e seven d c' show ?thesis by blast
qed

text \<open>
  Claim C4, as amended. Two generators constructed with the same nonzero seed, each
  followed by its \<open>k\<close> calls of \<^verbatim>\<open>generate_platform\<close> with no other draw from the
  process-wide stream between its construction and its last call, hold the same platform
  sequence, whatever the state of the stream was before each construction.
\<close>

theorem same_seed_same_platforms:
  assumes "n \<noteq> 0"
    and "PlatformGenerator cfg R (Some n) g1 = Inr (A, h1)"
    and "generate_platforms cfg R k (A, h1) = Inr (A', h1')"
    and "PlatformGenerator cfg R (Some n) g2 = Inr (B, h2)"
    and "generate_platforms cfg R k (B, h2) = Inr (B', h2')"
  shows "platforms A = platforms B \<and> platforms A' = platforms B'"
proof -
  from assms(1) have "PlatformGenerator cfg R (Some n) g1 = PlatformGenerator cfg R (Some n) g2"
    by (simp add: PlatformGenerator_unfold chosen_seed_def)
  with assms(2,4) have "A = B" "h1 = h2" by simp_all
  with assms(3,5) show ?thesis by simp
qed

theorem same_seed_same_platforms_witness:
  "(1::int) \<noteq> 0
   \<and> map_sum id (platforms \<circ> fst) (seeded_run 0) = map_sum id (platforms \<circ> fst) (seeded_run 77)
   \<and> map_sum id (map pf_x \<circ> platforms \<circ> fst) (seeded_run 0)
       = Inr [0, 101, 205, 312, 422, 535, 651, 771, 895, 1023, 1155, 1291, 1431, 1575, 1723,
              1875, 2031, 2191]"
proof -
  obtain A h1 where a: "PlatformGenerator default_config counter_rng (Some 1) 0 = Inr (A, h1)"
    using PlatformGenerator_total [of default_config counter_rng "Some 1" 0] by blast
  obtain B h2 where b: "PlatformGenerator default_config counter_rng (Some 1) 77 = Inr (B, h2)"
    using PlatformGenerator_total [of default_config counter_rng "Some 1" 77] by blast
  obtain A' h1' where a': "generate_platforms default_config counter_rng 2 (A, h1) = Inr (A', h1')"
    using generate_platforms_total [OF PlatformGenerator_Inr(1) [OF a],
        where cfg = default_config and R = counter_rng and n = 2 and g = h1]
    by blast
  obtain B' h2' where b': "generate_platforms default_config counter_rng 2 (B, h2) = Inr (B', h2')"
    using generate_platforms_total [OF PlatformGenerator_Inr(1) [OF b],
        where cfg = default_config and R = counter_rng and n = 2 and g = h2]
    by blast
  have one: "(1::int) \<noteq> 0" by simp
  from same_seed_same_platforms [OF one a a' b b'] have "platforms A' = platforms B'" by simp
  with a a' b b' have eq:
    "map_sum id (platforms \<circ> fst) (seeded_run 0) = map_sum id (platforms \<circ> fst) (seeded_run 77)"
    by (simp add: seeded_run_def)
  have "map_sum id (map pf_x \<circ> platforms \<circ> fst) (seeded_run 0)
       = Inr [0, 101, 205, 312, 422, 535, 651, 771, 895, 1023, 1155, 1291, 1431, 1575, 1723,
              1875, 2031, 2191]"
    by code_simp
  with eq show ?thesis by simp
qed

text \<open>
  The claim as stated fails because all generators draw from the one process-wide stream.
  Two generators are built with seed 1 and hold the same sixteen platforms. The first then
  generates its next platform, at \<open>x = 2031\<close>; the second generates its next platform from
  the stream as the first left it, at \<open>x = 2035\<close>.
\<close>

theorem same_seed_same_platforms_counterexample:
  "map_sum id (\<lambda>(A, B). (map pf_x (platforms A), map pf_x (platforms B))) two_generators
     = Inr ([0, 101, 205, 312, 422, 535, 651, 771, 895, 1023, 1155, 1291, 1431, 1575, 1723,
             1875, 2031],
            [0, 101, 205, 312, 422, 535, 651, 771, 895, 1023, 1155, 1291, 1431, 1575, 1723,
             1875, 2035])"
  by code_simp

subsection \<open>Session start\<close>

text \<open>
  Claim C1, as amended. \<^verbatim>\<open>reset_game\<close> checks nothing: for every value of the module
  constants and every state of the random stream it returns a session with a new player
  at \<open>(100, 300)\<close>, a generator built from a drawn seed, a new camera, score 0 and
  \<open>game_over\<close> false, and never an error.
\<close>

theorem reset_game_never_fails:
  "\<exists>G g'. reset_game cfg R g = Inr (G, g')
      \<and> player G = Player 100 300 \<and> camera G = Camera \<and> score G = 0 \<and> \<not> game_over G
      \<and> PlatformGenerator cfg R (Some (fst (rng_randint R 0 1000000 g)))
           (snd (rng_randint R 0 1000000 g)) = Inr (generator G, g')"
proof -
  obtain sd g1 where d: "rng_randint R 0 1000000 g = (sd, g1)" by (cases "rng_randint R 0 1000000 g")
  from PlatformGenerator_total [of cfg R "Some sd" g1]
  obtain s g2 where c: "PlatformGenerator cfg R (Some sd) g1 = Inr (s, g2)" by blast
  from d c show ?thesis by (simp add: reset_game_def py_randint_ok)
qed

text \<open>
  The claim as stated fails: with every constant of the wrong sign the session starts as
  with the constants of the source, and no error is reported.
\<close>

theorem reset_game_counterexample:
  "map_sum id (\<lambda>(G, g). (player G, camera G, score G, game_over G))
     (reset_game malformed_config counter_rng 3) = Inr (Player 100 300, Camera, 0, False)"
  by code_simp

subsection \<open>Player\<close>

lemma Player_update_no_platforms:
  "Player_update cfg ks [] p =
     ((apply_velocity (apply_gravity cfg (cooldown_tick (handle_dash cfg
         (dash_mechanic cfg ks (jumping cfg ks (update_coyote_time cfg
            (horizontal_movement cfg ks p))))))))\<lparr>on_ground := False\<rparr>, [])"
  by (simp add: Player_update_def Let_def)

lemma dash_mechanic_idle: "\<not> K_x ks \<Longrightarrow> dash_mechanic cfg ks p = p"
  by (simp add: dash_mechanic_def)

lemma handle_dash_idle: "\<not> dashing p \<Longrightarrow> handle_dash cfg p = p"
  by (simp add: handle_dash_def)

lemma jumping_idle: "\<not> K_z ks \<Longrightarrow> jumping cfg ks p = p"
  by (simp add: jumping_def)

lemma horizontal_movement_fields [simp]:
  "on_ground (horizontal_movement cfg ks p) = on_ground p"
  "dashing (horizontal_movement cfg ks p) = dashing p"
  "vel_y (horizontal_movement cfg ks p) = vel_y p"
  "coyote_timer (horizontal_movement cfg ks p) = coyote_timer p"
  by (simp_all add: horizontal_movement_def)

lemma update_coyote_time_fields [simp]:
  "dashing (update_coyote_time cfg p) = dashing p"
  "vel_y (update_coyote_time cfg p) = vel_y p"
  "on_ground (update_coyote_time cfg p) = on_ground p"
  by (simp_all add: update_coyote_time_def)

lemma cooldown_tick_fields [simp]:
  "dashing (cooldown_tick p) = dashing p"
  "vel_y (cooldown_tick p) = vel_y p"
  "coyote_timer (cooldown_tick p) = coyote_timer p"
  by (simp_all add: cooldown_tick_def)

lemma apply_gravity_fields [simp]:
  "dashing (apply_gravity cfg p) = dashing p"
  "coyote_timer (apply_gravity cfg p) = coyote_timer p"
  "\<not> dashing p \<Longrightarrow> vel_y (apply_gravity cfg p) = vel_y p + GRAVITY cfg"
  by (simp_all add: apply_gravity_def)

lemma apply_velocity_fields [simp]:
  "dashing (apply_velocity p) = dashing p"
  "coyote_timer (apply_velocity p) = coyote_timer p"
  "vel_y (apply_velocity p) = vel_y p"
  by (simp_all add: apply_velocity_def)

lemma idle_tick:
  assumes "\<not> dashing p" "\<not> K_z ks" "\<not> K_x ks"
  shows "Player_update cfg ks [] p =
     ((apply_velocity (apply_gravity cfg (cooldown_tick
         (update_coyote_time cfg (horizontal_movement cfg ks p)))))\<lparr>on_ground := False\<rparr>, [])"
proof -
  let ?p2 = "update_coyote_time cfg (horizontal_movement cfg ks p)"
  have "\<not> dashing ?p2" using assms(1) by simp
  then show ?thesis
    using assms(2,3)
    by (simp add: Player_update_no_platforms jumping_idle dash_mechanic_idle handle_dash_idle)
qed

lemma Player_update_split:
  "Player_update cfg ks pfs p = collision_detection cfg (fst (Player_update cfg ks [] p)) pfs"
  by (simp add: Player_update_def Let_def)

lemma handle_collision_fields [simp]:
  "dashing (fst (handle_collision cfg p pf)) = dashing p"
  "coyote_timer (fst (handle_collision cfg p pf)) = coyote_timer p"
  by (simp_all add: handle_collision_def Let_def)

lemma collision_detection_fields [simp]:
  "dashing (fst (collision_detection cfg p pfs)) = dashing p"
  "coyote_timer (fst (collision_detection cfg p pfs)) = coyote_timer p"
  by (induction pfs arbitrary: p) (simp_all add: split_def Let_def)

lemma collision_detection_rising:
  "vel_y p \<le> 0 \<Longrightarrow> collision_detection cfg p pfs = (p, pfs)"
  by (induction pfs) (simp_all add: handle_collision_def)

lemma idle_tick_any:
  assumes "\<not> dashing p" "\<not> K_z ks" "\<not> K_x ks"
  shows "\<not> dashing (fst (Player_update cfg ks pfs p))"
    and "coyote_timer (fst (Player_update cfg ks pfs p))
           = (if on_ground p then COYOTE_TIME cfg
              else if 0 < coyote_timer p then coyote_timer p - 1 else coyote_timer p)"
proof -
  note e = idle_tick [OF assms, of cfg]
  show "\<not> dashing (fst (Player_update cfg ks pfs p))"
    using assms(1) by (subst Player_update_split) (simp add: e)
  show "coyote_timer (fst (Player_update cfg ks pfs p))
           = (if on_ground p then COYOTE_TIME cfg
              else if 0 < coyote_timer p then coyote_timer p - 1 else coyote_timer p)"
    by (subst Player_update_split) (simp add: e update_coyote_time_def)
qed

lemma off_ground_run:
  "\<not> on_ground p \<Longrightarrow> \<not> dashing p \<Longrightarrow> \<forall>(ks, pfs) \<in> set ts. \<not> K_z ks \<and> \<not> K_x ks \<Longrightarrow>
   off_ground cfg ts p \<Longrightarrow>
     \<not> on_ground (Player_ticks cfg ts p)
     \<and> \<not> dashing (Player_ticks cfg ts p)
     \<and> coyote_timer (Player_ticks cfg ts p)
          = (if 0 < coyote_timer p then max 0 (coyote_timer p - int (length ts))
             else coyote_timer p)"
proof (induction ts arbitrary: p)
  case Nil
  then show ?case by simp
next
  case (Cons t ts)
  obtain ks pfs where t: "t = (ks, pfs)" by (cases t)
  define q where "q = fst (Player_update cfg ks pfs p)"
  from Cons.prems(3) t have k: "\<not> K_z ks" "\<not> K_x ks"
    and rest: "\<forall>(ks, pfs) \<in> set ts. \<not> K_z ks \<and> \<not> K_x ks" by simp_all
  from Cons.prems(4) t have og: "\<not> on_ground q" and off: "off_ground cfg ts q"
    by (simp_all add: q_def)
  note s = idle_tick_any [OF Cons.prems(2) k, of cfg pfs, folded q_def]
  from s(2) Cons.prems(1)
  have tq: "coyote_timer q = (if 0 < coyote_timer p then coyote_timer p - 1 else coyote_timer p)"
    by simp
  have run: "Player_ticks cfg (t # ts) p = Player_ticks cfg ts q"
    by (simp add: t q_def)
  note ih = Cons.IH [OF og s(1) rest off]
  from ih have a: "\<not> on_ground (Player_ticks cfg ts q)"
    and b: "\<not> dashing (Player_ticks cfg ts q)" by simp_all
  from ih have tm: "coyote_timer (Player_ticks cfg ts q)
      = (if 0 < coyote_timer q then max 0 (coyote_timer q - int (length ts))
         else coyote_timer q)" by simp
  have d: "coyote_timer (Player_ticks cfg ts q)
      = (if 0 < coyote_timer p then max 0 (coyote_timer p - int (length (t # ts)))
         else coyote_timer p)"
  proof (cases "0 < coyote_timer p")
    case False
    with tq have "coyote_timer q = coyote_timer p" by simp
    with tm False show ?thesis by simp
  next
    case True
    with tq have q: "coyote_timer q = coyote_timer p - 1" by simp
    show ?thesis
    proof (cases "1 < coyote_timer p")
      case True
      with q tm \<open>0 < coyote_timer p\<close> show ?thesis by (simp add: max_def)
    next
      case False
      with \<open>0 < coyote_timer p\<close> have "coyote_timer p = 1" by linarith
      with q tm show ?thesis by (simp add: max_def)
    qed
  qed
  from a b d show ?case unfolding run by blast
qed

lemma jumping_fields [simp]: "dashing (jumping cfg ks p) = dashing p"
  by (simp add: jumping_def)

lemma no_dash_tick:
  assumes "\<not> dashing p" "\<not> K_x ks"
  shows "Player_update cfg ks [] p =
     ((apply_velocity (apply_gravity cfg (cooldown_tick (jumping cfg ks
         (update_coyote_time cfg (horizontal_movement cfg ks p))))))\<lparr>on_ground := False\<rparr>, [])"
proof -
  let ?p3 = "jumping cfg ks (update_coyote_time cfg (horizontal_movement cfg ks p))"
  have "\<not> dashing ?p3" using assms(1) by simp
  then show ?thesis
    using assms(2) by (simp add: Player_update_no_platforms dash_mechanic_idle handle_dash_idle)
qed

lemma horizontal_movement_K_z [simp]:
  "horizontal_movement cfg (ks\<lparr>K_z := b\<rparr>) p = horizontal_movement cfg ks p"
  by (simp add: horizontal_movement_def)

lemma dash_mechanic_K_z [simp]:
  "dash_mechanic cfg (ks\<lparr>K_z := b\<rparr>) p = dash_mechanic cfg ks p"
  by (simp add: dash_mechanic_def)

text \<open>
  Claim C8, as amended. A player starts a tick on the ground, not dashing; that tick and
  every later tick of the run ends off the ground, with neither jump nor dash pressed,
  whatever platforms each tick sees. On the tick after the run, tick number \<open>n\<close> after
  the one that left the ground, the jump key is pressed. If \<open>n < COYOTE_TIME\<close> (the first
  five ticks, for the value 6 of the source), \<open>vel_y\<close> is not negative, dash is not
  pressed and the jump impulse points up, the tick ends with \<open>vel_y\<close> equal to the jump
  impulse plus one step of gravity. If \<open>n \<ge> COYOTE_TIME\<close>, the jump key changes nothing:
  the tick ends as it does without the key.
\<close>

theorem coyote_window:
  assumes "on_ground p" and "\<not> dashing p"
    and "\<forall>(ks, pfs) \<in> set (t0 # ts). \<not> K_z ks \<and> \<not> K_x ks"
    and "off_ground cfg (t0 # ts) p"
    and "K_z kj"
  shows "(int (length ts) + 1 < COYOTE_TIME cfg \<and> \<not> K_x kj
            \<and> 0 \<le> vel_y (Player_ticks cfg (t0 # ts) p)
            \<and> of_int (JUMP_STRENGTH cfg) + GRAVITY cfg \<le> 0 \<longrightarrow>
            vel_y (fst (Player_update cfg kj pfs (Player_ticks cfg (t0 # ts) p)))
              = of_int (JUMP_STRENGTH cfg) + GRAVITY cfg)
       \<and> (COYOTE_TIME cfg \<le> int (length ts) + 1 \<longrightarrow>
            Player_update cfg kj pfs (Player_ticks cfg (t0 # ts) p)
              = Player_update cfg (kj\<lparr>K_z := False\<rparr>) pfs (Player_ticks cfg (t0 # ts) p))"
proof -
  obtain k0 pfs0 where t0: "t0 = (k0, pfs0)" by (cases t0)
  define p1 where "p1 = fst (Player_update cfg k0 pfs0 p)"
  define q where "q = Player_ticks cfg (t0 # ts) p"
  define c where "c = update_coyote_time cfg (horizontal_movement cfg kj q)"
  from assms(3) t0 have k0: "\<not> K_z k0" "\<not> K_x k0"
    and rest: "\<forall>(ks, pfs) \<in> set ts. \<not> K_z ks \<and> \<not> K_x ks" by simp_all
  from assms(4) t0 have og: "\<not> on_ground p1" and off: "off_ground cfg ts p1"
    by (simp_all add: p1_def)
  note g = idle_tick_any [OF assms(2) k0, of cfg pfs0, folded p1_def]
  from g(2) assms(1) have t1: "coyote_timer p1 = COYOTE_TIME cfg" by simp
  have run: "q = Player_ticks cfg ts p1"
    by (simp add: q_def t0 p1_def)
  note ar = off_ground_run [OF og g(1) rest off, folded run]
  from ar have q1: "\<not> on_ground q" and q2: "\<not> dashing q" by simp_all
  from ar t1 have q4: "coyote_timer q
      = (if 0 < COYOTE_TIME cfg then max 0 (COYOTE_TIME cfg - int (length ts))
         else COYOTE_TIME cfg)"
    by simp
  have cv: "vel_y c = vel_y q" and cd: "\<not> dashing c" using q2 by (simp_all add: c_def)
  have ct: "coyote_timer c = (if 0 < coyote_timer q then coyote_timer q - 1 else coyote_timer q)"
    using q1 by (simp add: c_def update_coyote_time_def)
  have "(int (length ts) + 1 < COYOTE_TIME cfg \<and> \<not> K_x kj \<and> 0 \<le> vel_y q
            \<and> of_int (JUMP_STRENGTH cfg) + GRAVITY cfg \<le> 0 \<longrightarrow>
            vel_y (fst (Player_update cfg kj pfs q)) = of_int (JUMP_STRENGTH cfg) + GRAVITY cfg)
       \<and> (COYOTE_TIME cfg \<le> int (length ts) + 1 \<longrightarrow>
            Player_update cfg kj pfs q = Player_update cfg (kj\<lparr>K_z := False\<rparr>) pfs q)"
  proof (intro conjI impI)
    assume h: "int (length ts) + 1 < COYOTE_TIME cfg \<and> \<not> K_x kj \<and> 0 \<le> vel_y q
            \<and> of_int (JUMP_STRENGTH cfg) + GRAVITY cfg \<le> 0"
    then have lt: "int (length ts) + 1 < COYOTE_TIME cfg" and kx: "\<not> K_x kj"
      and v: "0 \<le> vel_y q" and up: "of_int (JUMP_STRENGTH cfg) + GRAVITY cfg \<le> 0"
      by simp_all
    note e = no_dash_tick [OF q2 kx, of cfg, folded c_def]
    from lt q4 have "coyote_timer q = COYOTE_TIME cfg - int (length ts)" by (simp add: max_def)
    with ct lt have "0 < coyote_timer c" by simp
    with v cv assms(5) have j: "vel_y (jumping cfg kj c) = of_int (JUMP_STRENGTH cfg)"
      by (simp add: jumping_def)
    have "\<not> dashing (cooldown_tick (jumping cfg kj c))" using cd by simp
    with j have m: "vel_y (fst (Player_update cfg kj [] q))
        = of_int (JUMP_STRENGTH cfg) + GRAVITY cfg"
      by (simp add: e)
    with up have "vel_y (fst (Player_update cfg kj [] q)) \<le> 0" by simp
    from collision_detection_rising [OF this, of cfg pfs]
    have "Player_update cfg kj pfs q = (fst (Player_update cfg kj [] q), pfs)"
      by (subst Player_update_split) simp
    with m show "vel_y (fst (Player_update cfg kj pfs q))
        = of_int (JUMP_STRENGTH cfg) + GRAVITY cfg"
      by simp
  next
    assume ge: "COYOTE_TIME cfg \<le> int (length ts) + 1"
    have "coyote_timer c \<le> 0"
    proof (cases "0 < COYOTE_TIME cfg")
      case True
      with q4 have "coyote_timer q = max 0 (COYOTE_TIME cfg - int (length ts))" by simp
      with ge have "coyote_timer q \<le> 1" by (simp add: max_def)
      with ct show ?thesis by simp
    next
      case False
      with q4 have "coyote_timer q = COYOTE_TIME cfg" by simp
      with False ct show ?thesis by simp
    qed
    then have j: "jumping cfg kj c = c" "jumping cfg (kj\<lparr>K_z := False\<rparr>) c = c"
      by (simp_all add: jumping_def)
    have c': "update_coyote_time cfg (horizontal_movement cfg (kj\<lparr>K_z := False\<rparr>) q) = c"
      by (simp add: c_def)
    show "Player_update cfg kj pfs q = Player_update cfg (kj\<lparr>K_z := False\<rparr>) pfs q"
      unfolding Player_update_def Let_def c' c_def [symmetric] j
      by simp
  qed
  then show ?thesis unfolding q_def .
qed

theorem coyote_window_witness:
  "off_ground default_config (walk_tick # replicate 4 walk_tick) standing_player
   \<and> vel_y (Player_ticks default_config (walk_tick # replicate 4 walk_tick) standing_player)
       = 7 / 2
   \<and> vel_y (fst (Player_update default_config walk_jump_keys [Platform 0 400 250 NORMAL]
        (Player_ticks default_config (walk_tick # replicate 4 walk_tick) standing_player)))
     = - (143 / 10)
   \<and> off_ground default_config (walk_tick # replicate 5 walk_tick) standing_player
   \<and> Player_update default_config walk_jump_keys [Platform 0 400 250 NORMAL]
        (Player_ticks default_config (walk_tick # replicate 5 walk_tick) standing_player)
     = Player_update default_config (walk_jump_keys\<lparr>K_z := False\<rparr>) [Platform 0 400 250 NORMAL]
        (Player_ticks default_config (walk_tick # replicate 5 walk_tick) standing_player)"
proof -
  have h: "on_ground standing_player" "\<not> dashing standing_player"
    "K_z walk_jump_keys" "\<not> K_x walk_jump_keys"
    by (simp_all add: standing_player_def Player_def walk_jump_keys_def no_keys_def)
  have k4: "\<forall>(ks, pfs) \<in> set (walk_tick # replicate 4 walk_tick). \<not> K_z ks \<and> \<not> K_x ks"
    and k5: "\<forall>(ks, pfs) \<in> set (walk_tick # replicate 5 walk_tick). \<not> K_z ks \<and> \<not> K_x ks"
    by (simp_all add: walk_tick_def walk_keys_def no_keys_def)
  have o4: "off_ground default_config (walk_tick # replicate 4 walk_tick) standing_player"
    by code_simp
  have o5: "off_ground default_config (walk_tick # replicate 5 walk_tick) standing_player"
    by code_simp
  have v4: "vel_y (Player_ticks default_config (walk_tick # replicate 4 walk_tick) standing_player)
       = 7 / 2"
    by code_simp
  have c: "int (length (replicate 4 walk_tick)) + 1 < COYOTE_TIME default_config"
    "COYOTE_TIME default_config \<le> int (length (replicate 5 walk_tick)) + 1"
    "of_int (JUMP_STRENGTH default_config) + GRAVITY default_config = - (143 / 10)"
    by (simp_all add: default_config_def)
  from coyote_window [OF h(1,2) k4 o4 h(3), of "[Platform 0 400 250 NORMAL]"] h(4) v4 c
  have a: "vel_y (fst (Player_update default_config walk_jump_keys [Platform 0 400 250 NORMAL]
        (Player_ticks default_config (walk_tick # replicate 4 walk_tick) standing_player)))
     = - (143 / 10)"
    by simp
  from coyote_window [OF h(1,2) k5 o5 h(3), of "[Platform 0 400 250 NORMAL]"] c
  have b: "Player_update default_config walk_jump_keys [Platform 0 400 250 NORMAL]
        (Player_ticks default_config (walk_tick # replicate 5 walk_tick) standing_player)
     = Player_update default_config (walk_jump_keys\<lparr>K_z := False\<rparr>) [Platform 0 400 250 NORMAL]
        (Player_ticks default_config (walk_tick # replicate 5 walk_tick) standing_player)"
    by blast
  from o4 v4 a o5 b show ?thesis by blast
qed

text \<open>
  The claim as stated, with a window of \<open>COYOTE_TIME = 6\<close> ticks after leaving the ground,
  fails on the sixth tick. The player walks right off the starting platform: the first
  tick ends in the air at \<open>x = 251\<close>. Five more ticks pass, and on the next one, the sixth
  after leaving the ground, the jump key is pressed: the tick ends with \<open>vel_y = 4.9\<close>,
  seven steps of gravity, and not with the jump impulse.
\<close>

theorem coyote_window_counterexample:
  "(let left = fst (Player_run default_config (replicate 1 walk_keys)
                      [Platform 0 400 250 NORMAL] standing_player);
        q = fst (Player_run default_config (replicate 6 walk_keys)
                      [Platform 0 400 250 NORMAL] standing_player);
        r = fst (Player_update default_config walk_jump_keys [Platform 0 400 250 NORMAL] q)
    in (on_ground left, p_x left, on_ground q, coyote_timer q, vel_y r))
   = (False, 251, False, 1, 49 / 10)"
  by code_simp

text \<open>
  Claim C6. When \<^verbatim>\<open>handle_collision\<close> takes a contact with a bouncy platform as a landing,
  the player is left with \<open>on_ground\<close> false and \<open>vel_y\<close> equal to \<open>1.5\<close> times
  \<open>JUMP_STRENGTH\<close>, whatever \<open>vel_y\<close> was.
\<close>

theorem bouncy_landing:
  assumes "platform_type pf = BOUNCY" and "0 < vel_y p"
    and "p_y p + of_int (p_height p) - vel_y p \<le> of_int (pf_y pf) + 5"
  shows "\<not> on_ground (fst (handle_collision cfg p pf))
     \<and> vel_y (fst (handle_collision cfg p pf)) = of_int (JUMP_STRENGTH cfg) * (3 / 2)"
  using assms by (simp add: handle_collision_def Let_def)

theorem bouncy_landing_witness:
  "\<not> on_ground (fst (handle_collision default_config ((Player 100 365)\<lparr>vel_y := 10\<rparr>)
                       (Platform 0 400 250 BOUNCY)))
   \<and> vel_y (fst (handle_collision default_config ((Player 100 365)\<lparr>vel_y := 10\<rparr>)
                       (Platform 0 400 250 BOUNCY))) = - (45 / 2)
   \<and> vel_y (fst (handle_collision default_config ((Player 100 365)\<lparr>vel_y := 1000\<rparr>)
                       (Platform 0 400 250 BOUNCY))) = - (45 / 2)"
proof -
  have t: "platform_type (Platform 0 400 250 BOUNCY) = BOUNCY" by (simp add: Platform_def)
  have a: "0 < vel_y ((Player 100 365)\<lparr>vel_y := 10\<rparr>)"
    "p_y ((Player 100 365)\<lparr>vel_y := 10\<rparr>) + of_int (p_height ((Player 100 365)\<lparr>vel_y := 10\<rparr>))
       - vel_y ((Player 100 365)\<lparr>vel_y := 10\<rparr>) \<le> of_int (pf_y (Platform 0 400 250 BOUNCY)) + 5"
    by (simp_all add: Player_def Platform_def)
  have b: "0 < vel_y ((Player 100 365)\<lparr>vel_y := 1000\<rparr>)"
    "p_y ((Player 100 365)\<lparr>vel_y := 1000\<rparr>) + of_int (p_height ((Player 100 365)\<lparr>vel_y := 1000\<rparr>))
       - vel_y ((Player 100 365)\<lparr>vel_y := 1000\<rparr>) \<le> of_int (pf_y (Platform 0 400 250 BOUNCY)) + 5"
    by (simp_all add: Player_def Platform_def)
  have j: "of_int (JUMP_STRENGTH default_config) * (3 / 2) = (- (45 / 2) :: real)"
    by (simp add: default_config_def)
  from bouncy_landing [OF t a, of default_config] bouncy_landing [OF t b, of default_config] j
  show ?thesis by simp
qed

text \<open>
  Claim C2. The end of a dash sets \<open>vel_x\<close> to \<open>PLAYER_SPEED\<close> when \<open>vel_x\<close> is positive
  and to \<open>- PLAYER_SPEED\<close> otherwise. A dash straight up has \<open>vel_x = 0\<close> throughout, so it
  ends with \<open>vel_x = - 6\<close>: after nine ticks of an upward dash the player is still at
  \<open>x = 100\<close> with \<open>vel_x = 0\<close>, and the tenth tick, on which the dash ends, moves it left
  to \<open>x = 94\<close>.
\<close>

theorem vertical_dash_ends_moving_left:
  "(let q = fst (Player_run default_config (up_dash_keys # replicate 8 no_keys) []
                   (Player 100 300));
        r = fst (Player_update default_config no_keys [] q)
    in (dashing q, dash_timer q, vel_x q, vel_y q, p_x q, dashing r, vel_x r, p_x r))
   = (True, 1, 0, - 20, 100, False, - 6, 94)"
  by code_simp

lemma handle_dash_end:
  "dashing p \<Longrightarrow> dash_timer p \<le> 1 \<Longrightarrow>
     \<not> dashing (handle_dash cfg p)
     \<and> vel_x (handle_dash cfg p)
         = (if 0 < vel_x p then of_int (PLAYER_SPEED cfg) else - of_int (PLAYER_SPEED cfg))"
  by (simp add: handle_dash_def Let_def)

subsection \<open>Game\<close>

text \<open>
  Claim C9, as amended. Once \<open>game_over\<close> is true, \<^verbatim>\<open>Game.update\<close> changes nothing, for one
  tick and for any run of ticks, so the flag is set at most once between two resets. A
  tick that starts with the flag false ends with it true exactly when, after the updates
  of that tick, \<open>player.y\<close> is above \<open>camera.get_y() + SCREEN_HEIGHT + 100\<close>, where
  \<open>get_y\<close> is the camera's \<open>y\<close> truncated to an integer. \<^verbatim>\<open>reset_game\<close> clears the flag
  and the score and installs a new player and a new camera.
\<close>

theorem game_over_latch:
  "(game_over G \<longrightarrow>
      Game_update cfg R ks (G, g) = Inr (G, g) \<and> Game_run cfg R kss (G, g) = Inr (G, g))
   \<and> (\<not> game_over G \<longrightarrow>
        (\<forall>G' g'. Game_update cfg R ks (G, g) = Inr (G', g') \<longrightarrow>
           (game_over G' \<longleftrightarrow>
              p_y (player G') > of_int (get_y (camera G') + SCREEN_HEIGHT cfg + 100))))
   \<and> (\<forall>G' g'. reset_game cfg R g = Inr (G', g') \<longrightarrow>
        \<not> game_over G' \<and> player G' = Player 100 300 \<and> camera G' = Camera \<and> score G' = 0)"
proof (intro conjI impI allI)
  assume over: "game_over G"
  then show "Game_update cfg R ks (G, g) = Inr (G, g)"
    by (simp add: Game_update_def)
  show "Game_run cfg R kss (G, g) = Inr (G, g)"
    using over by (induction kss) (simp_all add: Game_update_def)
next
  fix G' g'
  assume "\<not> game_over G" and "Game_update cfg R ks (G, g) = Inr (G', g')"
  then show "game_over G' \<longleftrightarrow>
      p_y (player G') > of_int (get_y (camera G') + SCREEN_HEIGHT cfg + 100)"
    by (auto simp: Game_update_def Let_def split_def split: sum.splits if_splits)
next
  fix G' g'
  assume "reset_game cfg R g = Inr (G', g')"
  then show "\<not> game_over G'" "player G' = Player 100 300" "camera G' = Camera" "score G' = 0"
    by (auto simp: reset_game_def split: sum.splits)
qed

theorem game_over_latch_witness:
  "Game_update default_config counter_rng walk_keys
       (falling_game\<lparr>game_over := True\<rparr>, 0) = Inr (falling_game\<lparr>game_over := True\<rparr>, 0)
   \<and> Game_run default_config counter_rng [walk_keys, walk_jump_keys, no_keys]
       (falling_game\<lparr>game_over := True\<rparr>, 0) = Inr (falling_game\<lparr>game_over := True\<rparr>, 0)
   \<and> \<not> game_over falling_game
   \<and> fallen_update = Inr (projr fallen_update)
   \<and> game_over (fst (projr fallen_update))
   \<and> p_y (player (fst (projr fallen_update)))
        > of_int (get_y (camera (fst (projr fallen_update))) + SCREEN_HEIGHT default_config + 100)
   \<and> \<not> game_over (fst (projr (reset_game default_config counter_rng 3)))
   \<and> score (fst (projr (reset_game default_config counter_rng 3))) = 0"
proof -
  note L = game_over_latch [of _ default_config counter_rng]
  have o: "game_over (falling_game\<lparr>game_over := True\<rparr>)" by simp
  from L [of "falling_game\<lparr>game_over := True\<rparr>" walk_keys 0
           "[walk_keys, walk_jump_keys, no_keys]"] o
  have a: "Game_update default_config counter_rng walk_keys
       (falling_game\<lparr>game_over := True\<rparr>, 0) = Inr (falling_game\<lparr>game_over := True\<rparr>, 0)"
    and b: "Game_run default_config counter_rng [walk_keys, walk_jump_keys, no_keys]
       (falling_game\<lparr>game_over := True\<rparr>, 0) = Inr (falling_game\<lparr>game_over := True\<rparr>, 0)"
    by blast+
  have n: "\<not> game_over falling_game" by (simp add: falling_game_def)
  have e: "fallen_update = Inr (projr fallen_update)" by code_simp
  then have e': "Game_update default_config counter_rng no_keys (falling_game, snd seeded_generator)
      = Inr (fst (projr fallen_update), snd (projr fallen_update))"
    by (simp add: fallen_update_def)
  have t: "game_over (fst (projr fallen_update))" by code_simp
  from L [of falling_game no_keys "snd seeded_generator" "[]"] n e' t
  have c: "p_y (player (fst (projr fallen_update)))
        > of_int (get_y (camera (fst (projr fallen_update))) + SCREEN_HEIGHT default_config + 100)"
    by blast
  have r: "reset_game default_config counter_rng 3
      = Inr (fst (projr (reset_game default_config counter_rng 3)),
             snd (projr (reset_game default_config counter_rng 3)))"
    by code_simp
  from L [of falling_game no_keys 3 "[]"] r
  have d: "\<not> game_over (fst (projr (reset_game default_config counter_rng 3)))"
    "score (fst (projr (reset_game default_config counter_rng 3))) = 0"
    by blast+
  from a b n e t c d show ?thesis by blast
qed

text \<open>
  The claim as stated compares with \<open>camera.y\<close> itself. One tick of the falling session
  ends with \<open>game_over\<close> true although \<open>player.y = 1744.5\<close> is not above
  \<open>camera.y + 600 + 100 = 1744.9\<close>; the code compares with \<open>1044 + 700\<close>.
\<close>

theorem game_over_counterexample:
  "map_sum id
     (\<lambda>(G, g). (game_over G, p_y (player G), cam_y (camera G), get_y (camera G),
                 p_y (player G) > cam_y (camera G) + of_int (SCREEN_HEIGHT default_config) + 100))
     fallen_update
   = Inr (True, 3489 / 2, 10449 / 10, 1044, False)"
  by code_simp

end
